theory Spec2Isabelle
  imports Main
begin

section \<open>Data model (src/src/types/tag.ts)\<close>

datatype TagType = CATEGORY | CUSTOM

record TagAutocompleteResult =
  name :: string
  usageCount :: int

record TagAutocompleteParams =
  prefix :: string
  tagType :: "TagType option"
  limit :: "int option"

section \<open>JavaScript strings and numbers used by the code\<close>

text \<open>
  Strings are lists of characters (code units below 256). \<open>String.prototype.trim\<close>
  removes the ECMAScript WhiteSpace and LineTerminator code points from both ends; those
  below 256 are TAB, LF, VT, FF, CR, SPACE and NBSP. A string is falsy exactly when it is
  empty, so \<open>!s.trim()\<close> is \<open>blank s\<close>.
\<close>

definition js_whitespace :: "char \<Rightarrow> bool" where
  "js_whitespace c = (of_char c \<in> {9, 10, 11, 12, 13, 32, 160 :: nat})"

definition trim :: "string \<Rightarrow> string" where
  "trim s = rev (dropWhile js_whitespace (rev (dropWhile js_whitespace s)))"

definition blank :: "string \<Rightarrow> bool" where
  "blank s = (trim s = [])"

text \<open>
  \<open>Number.prototype.toString\<close> on an integer below \<open>10^21\<close>: its decimal digits;
  \<open>decimal_value\<close> reads them back.
\<close>

definition digit_char :: "nat \<Rightarrow> char" where
  "digit_char d = ''0123456789'' ! d"

fun show_nat :: "nat \<Rightarrow> string" where
  "show_nat n = (if n < 10 then [digit_char n] else show_nat (n div 10) @ [digit_char (n mod 10)])"

declare show_nat.simps [simp del]

definition decimal_value :: "string \<Rightarrow> nat" where
  "decimal_value ds = foldl (\<lambda>a c. 10 * a + (of_char c - 48)) 0 ds"

definition show_int :: "int \<Rightarrow> string" where
  "show_int i = (if i < 0 then CHR ''-'' # show_nat (nat (- i)) else show_nat (nat i))"

text \<open>
  \<open>count / 1000\<close> is an IEEE 754 binary64 division: the exact quotient rounded to a
  53-bit significand, ties to even. For \<open>1000 \<le> count\<close> the quotient lies in
  \<open>[2^e, 2^(e+1))\<close> with \<open>e = exponent2 (count div 1000)\<close>, and the result is the
  double \<open>m / 2^k\<close> with \<open>k = 52 - e\<close> (counts below \<open>1000 * 2^53\<close>, so that
  \<open>e \<le> 52\<close>); \<open>double_div_1000\<close> returns \<open>(m, k)\<close>.
\<close>

fun exponent2 :: "nat \<Rightarrow> nat" where
  "exponent2 n = (if n < 2 then 0 else Suc (exponent2 (n div 2)))"

declare exponent2.simps [simp del]

definition round_ties_even :: "nat \<Rightarrow> nat \<Rightarrow> nat" where
  "round_ties_even num den =
     (let q = num div den; r = num mod den
      in if 2 * r < den then q
         else if den < 2 * r then q + 1
         else if even q then q else q + 1)"

definition double_div_1000 :: "nat \<Rightarrow> nat \<times> nat" where
  "double_div_1000 c =
     (let k = 52 - exponent2 (c div 1000)
      in (round_ties_even (c * 2 ^ k) 1000, k))"

text \<open>
  \<open>x.toFixed(1)\<close> for \<open>x = m / 2^k\<close> below \<open>10^21\<close>: the integer \<open>n\<close> for which
  \<open>n / 10 - x\<close> is closest to zero, the larger one on a tie, that is
  \<open>n = floor (10 * x + 1/2)\<close>, printed with a point before its last digit.
\<close>

definition toFixed1_tenths :: "nat \<times> nat \<Rightarrow> nat" where
  "toFixed1_tenths x = (case x of (m, k) \<Rightarrow> (20 * m + 2 ^ k) div 2 ^ (k + 1))"

definition toFixed1 :: "nat \<times> nat \<Rightarrow> string" where
  "toFixed1 x = (let n = toFixed1_tenths x
                 in show_nat (n div 10) @ ''.'' @ [digit_char (n mod 10)])"

section \<open>formatUsageCount (the component in src/src/components/TagAutocomplete.test.tsx)\<close>

text \<open>
  The argument is \<open>number | undefined\<close>: \<open>None\<close> is \<open>undefined\<close> or \<open>null\<close>, and a
  usage count is an integer.
\<close>

definition formatUsageCount :: "int option \<Rightarrow> string" where
  "formatUsageCount count =
     (case count of
        None \<Rightarrow> ''0''
      | Some c \<Rightarrow>
          if c \<ge> 1000 then toFixed1 (double_div_1000 (nat c)) @ ''k''
          else show_int c)"

section \<open>fetchTagAutocomplete (src/src/services/tagService.ts)\<close>

record ApiError =
  code :: string
  message :: string

record 'a ApiResponse =
  success :: bool
  data :: "'a option"
  apiError :: "ApiError option"

text \<open>
  What \<open>api.get\<close> does: it resolves with a response whose body is the envelope, or it
  throws (an \<open>Error\<close> object carrying a message, or some other value).
\<close>

datatype thrown = JsError string | NonError

datatype api_outcome =
  Resolved "TagAutocompleteResult list ApiResponse"
| Rejected thrown

text \<open>\<open>x || []\<close> on a nullable array: an array, also an empty one, is truthy.\<close>

definition or_empty :: "'a list option \<Rightarrow> 'a list" where
  "or_empty x = (case x of None \<Rightarrow> [] | Some xs \<Rightarrow> xs)"

definition TagType_string :: "TagType \<Rightarrow> string" where
  "TagType_string t = (case t of CATEGORY \<Rightarrow> ''CATEGORY'' | CUSTOM \<Rightarrow> ''CUSTOM'')"

text \<open>The query parameters of the request, before URL encoding.\<close>

definition fetchTagAutocomplete_query :: "TagAutocompleteParams \<Rightarrow> (string \<times> string) list" where
  "fetchTagAutocomplete_query params =
     [(''prefix'', prefix params),
      (''limit'', show_int (case limit params of None \<Rightarrow> 10 | Some l \<Rightarrow> l))]
     @ (case tagType params of None \<Rightarrow> [] | Some t \<Rightarrow> [(''tagType'', TagType_string t)])"

text \<open>What the promise returned by \<open>fetchTagAutocomplete\<close> settles to.\<close>

definition fetchTagAutocomplete :: "api_outcome \<Rightarrow> thrown + TagAutocompleteResult list" where
  "fetchTagAutocomplete out =
     (case out of
        Rejected err \<Rightarrow> Inl err
      | Resolved response \<Rightarrow> Inr (or_empty (data response)))"

section \<open>The controller: useDebounce, useTagAutocomplete and TagAutocomplete\<close>

text \<open>
  \<open>useDebounce\<close> is src/src/hooks/useDebounce.ts, \<open>useTagAutocomplete\<close> is
  src/unnamed/part_002, and the component \<open>TagAutocomplete\<close> follows its tests in
  src/src/components/TagAutocomplete.test.tsx.

  The state of one mounted \<open>TagAutocomplete\<close>: its props \<open>value\<close> and \<open>tagType\<close>
  (owned by the caller), the state of \<open>useDebounce\<close> (\<open>debouncedValue\<close> and the pending
  timeout \<open>handler\<close>, kept as its due time and the value it captured), the state of
  \<open>useTagAutocomplete\<close> (\<open>suggestions\<close>, \<open>isLoading\<close>, \<open>error\<close>), the state of the
  component (\<open>isOpen\<close>, \<open>selectedIndex\<close>), and the environment: the clock \<open>now\<close>, the
  lookups in flight and the number of lookups issued so far (a lookup is named by its
  position in the order of issue).
\<close>

record controller =
  "value" :: string
  tagTypeProp :: "TagType option"
  debouncedValue :: string
  handler :: "(nat \<times> string) option"
  now :: nat
  suggestions :: "TagAutocompleteResult list"
  isLoading :: bool
  error :: "string option"
  isOpen :: bool
  selectedIndex :: int
  inflight :: "nat list"
  issued :: nat

text \<open>
  The options of the hook and whether the caller passed \<open>onSelect\<close>. The component
  passes \<open>limit: 10\<close> and \<open>debounceDelay: 300\<close>.
\<close>

record config =
  limitOpt :: int
  debounceDelay :: nat
  hasOnSelect :: bool

definition component_config :: "bool \<Rightarrow> config" where
  "component_config onSelect = \<lparr>limitOpt = 10, debounceDelay = 300, hasOnSelect = onSelect\<rparr>"

text \<open>What the controller does to the outside: callbacks of the caller, calls of the
  Suggestion Source, the console, and \<open>preventDefault\<close> on the key event.\<close>

datatype action =
  OnChange string
| OnSelect TagAutocompleteResult
| FetchTagAutocomplete nat TagAutocompleteParams
| ConsoleError
| PreventDefault

datatype key = ArrowDown | ArrowUp | Enter | Escape | OtherKey

datatype event =
  SetValue string
| SetTagType "TagType option"
| Advance nat
| Settle nat api_outcome
| Input string
| KeyDown key
| Click nat
| MouseDownOutside

text \<open>The effect on \<open>[suggestions]\<close>: it runs after every \<open>setSuggestions\<close> with a new array.\<close>

definition suggestions_effect :: "controller \<Rightarrow> controller" where
  "suggestions_effect s =
     (if length (suggestions s) > 0 then s\<lparr>isOpen := True, selectedIndex := - 1\<rparr>
      else s\<lparr>isOpen := False\<rparr>)"

definition setSuggestions :: "TagAutocompleteResult list \<Rightarrow> controller \<Rightarrow> controller" where
  "setSuggestions xs s = suggestions_effect (s\<lparr>suggestions := xs\<rparr>)"

text \<open>\<open>fetchSuggestions\<close> up to its \<open>await\<close>: the lookup is issued and left in flight.\<close>

definition fetchSuggestions :: "config \<Rightarrow> controller \<Rightarrow> controller \<times> action list" where
  "fetchSuggestions cfg s =
     (if blank (debouncedValue s) then (setSuggestions [] s, [])
      else (s\<lparr>isLoading := True, error := None,
               inflight := inflight s @ [issued s], issued := Suc (issued s)\<rparr>,
            [FetchTagAutocomplete (issued s)
               \<lparr>prefix = debouncedValue s, tagType = tagTypeProp s, limit = Some (limitOpt cfg)\<rparr>]))"

text \<open>\<open>fetchSuggestions\<close> after its \<open>await\<close>: lookup \<open>rid\<close> settles with \<open>out\<close>.\<close>

definition settle :: "nat \<Rightarrow> api_outcome \<Rightarrow> controller \<Rightarrow> controller \<times> action list" where
  "settle rid out s =
     (if rid \<notin> set (inflight s) then (s, [])
      else
        let s1 = s\<lparr>inflight := removeAll rid (inflight s)\<rparr>
        in case fetchTagAutocomplete out of
             Inr results \<Rightarrow>
               ((setSuggestions (or_empty (Some results)) s1)\<lparr>isLoading := False\<rparr>, [])
           | Inl err \<Rightarrow>
               ((setSuggestions []
                   (s1\<lparr>error := Some (case err of JsError m \<Rightarrow> m
                                       | NonError \<Rightarrow> ''Failed to fetch suggestions'')\<rparr>))
                  \<lparr>isLoading := False\<rparr>,
                [ConsoleError]))"

definition handleSelectTag :: "config \<Rightarrow> TagAutocompleteResult \<Rightarrow> controller \<Rightarrow> controller \<times> action list" where
  "handleSelectTag cfg tag s =
     (s\<lparr>isOpen := False\<rparr>,
      [OnChange (name tag)] @ (if hasOnSelect cfg then [OnSelect tag] else []))"

definition handleKeyDown :: "config \<Rightarrow> key \<Rightarrow> controller \<Rightarrow> controller \<times> action list" where
  "handleKeyDown cfg k s =
     (if \<not> isOpen s \<or> length (suggestions s) = 0 then (s, [])
      else case k of
        ArrowDown \<Rightarrow>
          (s\<lparr>selectedIndex :=
                (if selectedIndex s < int (length (suggestions s)) - 1
                 then selectedIndex s + 1 else selectedIndex s)\<rparr>,
           [PreventDefault])
      | ArrowUp \<Rightarrow>
          (s\<lparr>selectedIndex := (if selectedIndex s > 0 then selectedIndex s - 1 else - 1)\<rparr>,
           [PreventDefault])
      | Enter \<Rightarrow>
          (if selectedIndex s \<ge> 0 \<and> selectedIndex s < int (length (suggestions s))
           then case handleSelectTag cfg (suggestions s ! nat (selectedIndex s)) s of
                  (s', outs) \<Rightarrow> (s', PreventDefault # outs)
           else (s, [PreventDefault]))
      | Escape \<Rightarrow> (s\<lparr>isOpen := False\<rparr>, [PreventDefault])
      | OtherKey \<Rightarrow> (s, []))"

text \<open>
  \<open>useDebounce\<close>: when \<open>value\<close> changes, the cleanup clears the pending timeout and the
  effect sets a new one; a render with the same \<open>value\<close> leaves the timeout alone.
\<close>

definition setValue :: "config \<Rightarrow> string \<Rightarrow> controller \<Rightarrow> controller" where
  "setValue cfg v s =
     (if v = value s then s
      else s\<lparr>value := v, handler := Some (now s + debounceDelay cfg, v)\<rparr>)"

text \<open>
  Time passes. A timeout that is due fires: \<open>setDebouncedValue\<close> with an equal string
  changes nothing; with a new one, \<open>fetchSuggestions\<close> is a new callback and its effect
  calls it.
\<close>

definition advance :: "config \<Rightarrow> nat \<Rightarrow> controller \<Rightarrow> controller \<times> action list" where
  "advance cfg n s =
     (let s1 = s\<lparr>now := now s + n\<rparr>
      in case handler s of
           None \<Rightarrow> (s1, [])
         | Some (due, v) \<Rightarrow>
             if due \<le> now s1
             then (if v = debouncedValue s then (s1\<lparr>handler := None\<rparr>, [])
                   else fetchSuggestions cfg (s1\<lparr>handler := None, debouncedValue := v\<rparr>))
             else (s1, []))"

text \<open>A new \<open>tagType\<close> prop also makes \<open>fetchSuggestions\<close> a new callback.\<close>

definition setTagType :: "config \<Rightarrow> TagType option \<Rightarrow> controller \<Rightarrow> controller \<times> action list" where
  "setTagType cfg tt s =
     (if tt = tagTypeProp s then (s, [])
      else fetchSuggestions cfg (s\<lparr>tagTypeProp := tt\<rparr>))"

text \<open>
  One event, handled to its end: the state updates of the handler and the effects they
  trigger. \<open>SetValue\<close> and \<open>SetTagType\<close> are renders with a new prop, \<open>Advance\<close> is
  time passing, \<open>Settle\<close> the arrival of a response, the others are what the user does.
  A suggestion can be clicked only while its button is rendered, and a lookup can settle
  only while it is in flight; elsewhere these events do not occur and are modelled as
  doing nothing.
\<close>

definition step :: "config \<Rightarrow> controller \<Rightarrow> event \<Rightarrow> controller \<times> action list" where
  "step cfg s ev =
     (case ev of
        SetValue v \<Rightarrow> (setValue cfg v s, [])
      | SetTagType tt \<Rightarrow> setTagType cfg tt s
      | Advance n \<Rightarrow> advance cfg n s
      | Settle rid out \<Rightarrow> settle rid out s
      | Input v \<Rightarrow> (s, [OnChange v])
      | KeyDown k \<Rightarrow> handleKeyDown cfg k s
      | Click i \<Rightarrow>
          if isOpen s \<and> length (suggestions s) > 0 \<and> i < length (suggestions s)
          then handleSelectTag cfg (suggestions s ! i) s
          else (s, [])
      | MouseDownOutside \<Rightarrow> (s\<lparr>isOpen := False\<rparr>, []))"

text \<open>
  Mounting with the props \<open>value = v\<close> and \<open>tagType = tt\<close>: \<open>useDebounce\<close> starts from
  \<open>v\<close> and sets its first timeout, and the effects call \<open>fetchSuggestions\<close> at once.
\<close>

definition mount :: "config \<Rightarrow> string \<Rightarrow> TagType option \<Rightarrow> controller \<times> action list" where
  "mount cfg v tt =
     fetchSuggestions cfg
       (suggestions_effect
          \<lparr>value = v, tagTypeProp = tt, debouncedValue = v,
           handler = Some (debounceDelay cfg, v), now = 0,
           suggestions = [], isLoading = False, error = None,
           isOpen = False, selectedIndex = - 1, inflight = [], issued = 0\<rparr>)"

definition run :: "config \<Rightarrow> controller \<Rightarrow> event list \<Rightarrow> controller" where
  "run cfg s evs = foldl (\<lambda>s ev. fst (step cfg s ev)) s evs"

text \<open>What the JSX renders below the input.\<close>

definition dropdown_rendered :: "controller \<Rightarrow> bool" where
  "dropdown_rendered s = (isOpen s \<and> length (suggestions s) > 0)"


text \<open>
  A caller that passes the setter of its own state as \<open>onChange\<close>, as \<open>TagsPage\<close> and
  the examples do: each \<open>onChange v\<close> comes back as the prop \<open>value = v\<close>.
\<close>

definition adopt :: "config \<Rightarrow> action list \<Rightarrow> controller \<Rightarrow> controller" where
  "adopt cfg outs s =
     foldl (\<lambda>s a. case a of OnChange v \<Rightarrow> setValue cfg v s | _ \<Rightarrow> s) s outs"

section \<open>Observations used in the statements\<close>





definition timer_ok :: "config \<Rightarrow> controller \<Rightarrow> bool" where
  "timer_ok cfg s =
     (case handler s of
        None \<Rightarrow> debouncedValue s = value s
      | Some (due, v) \<Rightarrow> v = value s \<and> due \<le> now s + debounceDelay cfg)"


section \<open>Sample data\<close>

definition example_config :: config where
  "example_config = component_config True"

definition tag_LOL :: TagAutocompleteResult where
  "tag_LOL = \<lparr>name = ''LOL'', usageCount = 1500\<rparr>"

definition tag_Lost_Ark :: TagAutocompleteResult where
  "tag_Lost_Ark = \<lparr>name = ''Lost Ark'', usageCount = 800\<rparr>"

definition ok_response :: "TagAutocompleteResult list \<Rightarrow> api_outcome" where
  "ok_response xs = Resolved \<lparr>success = True, data = Some xs, apiError = None\<rparr>"

text \<open>Mounted with \<open>lo\<close>: the lookup issued at mount is in flight.\<close>

definition example_loading :: controller where
  "example_loading = fst (mount example_config ''lo'' None)"

text \<open>That lookup has returned two suggestions: the dropdown is open.\<close>

definition example_open :: controller where
  "example_open =
     run example_config example_loading [Settle 0 (ok_response [tag_LOL, tag_Lost_Ark])]"

section \<open>Auxiliary facts\<close>

lemmas blank_simps = blank_def trim_def js_whitespace_def

lemmas format_defs =
  formatUsageCount_def toFixed1_def toFixed1_tenths_def double_div_1000_def
  round_ties_even_def digit_char_def show_int_def show_nat.simps exponent2.simps

lemmas controller_defs =
  step_def setValue_def advance_def setTagType_def settle_def handleKeyDown_def
  handleSelectTag_def fetchSuggestions_def setSuggestions_def suggestions_effect_def
  fetchTagAutocomplete_def or_empty_def

lemma run_snoc: "run cfg s (evs @ [ev]) = fst (step cfg (run cfg s evs) ev)"
  by (simp add: run_def)

lemma run_Nil: "run cfg s [] = s"
  by (simp add: run_def)

subsection \<open>What each operation leaves alone\<close>

lemma setSuggestions_fields:
  "suggestions (setSuggestions xs s) = xs"
  "isOpen (setSuggestions xs s) = (xs \<noteq> [])"
  "selectedIndex (setSuggestions xs s) = (if xs \<noteq> [] then - 1 else selectedIndex s)"
  "handler (setSuggestions xs s) = handler s"
  "value (setSuggestions xs s) = value s"
  "now (setSuggestions xs s) = now s"
  "debouncedValue (setSuggestions xs s) = debouncedValue s"
  "tagTypeProp (setSuggestions xs s) = tagTypeProp s"
  "inflight (setSuggestions xs s) = inflight s"
  "issued (setSuggestions xs s) = issued s"
  "isLoading (setSuggestions xs s) = isLoading s"
  "error (setSuggestions xs s) = error s"
  by (simp_all add: setSuggestions_def suggestions_effect_def)

lemma fetchSuggestions_fields:
  "handler (fst (fetchSuggestions cfg s)) = handler s"
  "value (fst (fetchSuggestions cfg s)) = value s"
  "now (fst (fetchSuggestions cfg s)) = now s"
  "debouncedValue (fst (fetchSuggestions cfg s)) = debouncedValue s"
  "tagTypeProp (fst (fetchSuggestions cfg s)) = tagTypeProp s"
  "suggestions (fst (fetchSuggestions cfg s)) =
     (if blank (debouncedValue s) then [] else suggestions s)"
  "isOpen (fst (fetchSuggestions cfg s)) =
     (if blank (debouncedValue s) then False else isOpen s)"
  "selectedIndex (fst (fetchSuggestions cfg s)) = selectedIndex s"
  by (simp_all add: fetchSuggestions_def setSuggestions_fields)

lemma settle_fields:
  "handler (fst (settle rid out s)) = handler s"
  "value (fst (settle rid out s)) = value s"
  "now (fst (settle rid out s)) = now s"
  "debouncedValue (fst (settle rid out s)) = debouncedValue s"
  "tagTypeProp (fst (settle rid out s)) = tagTypeProp s"
  by (simp_all add: settle_def Let_def setSuggestions_fields split: sum.splits)


lemma handleSelectTag_fields:
  "fst (handleSelectTag cfg tag s) = s\<lparr>isOpen := False\<rparr>"
  "snd (handleSelectTag cfg tag s) =
     OnChange (name tag) # (if hasOnSelect cfg then [OnSelect tag] else [])"
  by (simp_all add: handleSelectTag_def)

lemma handleKeyDown_fields:
  "handler (fst (handleKeyDown cfg k s)) = handler s"
  "value (fst (handleKeyDown cfg k s)) = value s"
  "now (fst (handleKeyDown cfg k s)) = now s"
  "debouncedValue (fst (handleKeyDown cfg k s)) = debouncedValue s"
  "tagTypeProp (fst (handleKeyDown cfg k s)) = tagTypeProp s"
  "suggestions (fst (handleKeyDown cfg k s)) = suggestions s"
  by (simp_all add: handleKeyDown_def handleSelectTag_def split: key.splits)



subsection \<open>Invariants\<close>











lemma step_timer_other:
  assumes "\<And>v. ev \<noteq> SetValue v" and "\<And>n. ev \<noteq> Advance n"
  shows "handler (fst (step cfg s ev)) = handler s"
    and "value (fst (step cfg s ev)) = value s"
    and "now (fst (step cfg s ev)) = now s"
    and "debouncedValue (fst (step cfg s ev)) = debouncedValue s"
  using assms
  by (cases ev; simp add: step_def setTagType_def fetchSuggestions_fields settle_fields
      handleKeyDown_fields handleSelectTag_fields)+

lemma advance_fields:
  "value (fst (advance cfg n s)) = value s"
  "now (fst (advance cfg n s)) = now s + n"
  "handler (fst (advance cfg n s)) =
     (case handler s of None \<Rightarrow> None
      | Some (due, v) \<Rightarrow> if due \<le> now s + n then None else Some (due, v))"
  "debouncedValue (fst (advance cfg n s)) =
     (case handler s of None \<Rightarrow> debouncedValue s
      | Some (due, v) \<Rightarrow> if due \<le> now s + n then v else debouncedValue s)"
  by (simp_all add: advance_def Let_def fetchSuggestions_fields split: option.splits)

lemma timer_ok_mount: "timer_ok cfg (fst (mount cfg v tt))"
  by (simp add: timer_ok_def mount_def fetchSuggestions_fields suggestions_effect_def)

lemma timer_ok_step: "timer_ok cfg s \<Longrightarrow> timer_ok cfg (fst (step cfg s ev))"
proof -
  assume a: "timer_ok cfg s"
  consider (sv) v where "ev = SetValue v" | (adv) n where "ev = Advance n"
    | (other) "\<And>v. ev \<noteq> SetValue v" "\<And>n. ev \<noteq> Advance n"
    by blast
  then show ?thesis
  proof cases
    case sv
    with a show ?thesis
      by (auto simp: step_def setValue_def timer_ok_def split: option.splits)
  next
    case adv
    with a show ?thesis
      by (auto simp: step_def timer_ok_def advance_fields split: option.splits)
  next
    case other
    from a show ?thesis
      by (simp only: timer_ok_def step_timer_other [OF other])
  qed
qed

lemma timer_ok_run: "timer_ok cfg (run cfg (fst (mount cfg v tt)) evs)"
  by (induction evs rule: rev_induct) (simp_all add: run_Nil run_snoc timer_ok_mount timer_ok_step)





lemmas example_defs =
  example_config_def tag_LOL_def tag_Lost_Ark_def ok_response_def example_loading_def
  example_open_def run_def mount_def component_config_def

lemma example_loading_eq:
  "example_loading =
     \<lparr>value = ''lo'', tagTypeProp = None, debouncedValue = ''lo'',
      handler = Some (300, ''lo''), now = 0, suggestions = [], isLoading = True,
      error = None, isOpen = False, selectedIndex = - 1, inflight = [0], issued = 1\<rparr>"
  by (simp add: example_defs controller_defs blank_simps)

lemma example_open_eq:
  "example_open =
     \<lparr>value = ''lo'', tagTypeProp = None, debouncedValue = ''lo'',
      handler = Some (300, ''lo''), now = 0, suggestions = [tag_LOL, tag_Lost_Ark],
      isLoading = False, error = None, isOpen = True, selectedIndex = - 1,
      inflight = [], issued = 1\<rparr>"
  by (simp add: example_open_def example_loading_eq run_def controller_defs ok_response_def)

subsection \<open>The arithmetic of the division and of toFixed\<close>

lemma exponent2_le: "n < 2 ^ Suc j \<Longrightarrow> exponent2 n \<le> j"
proof (induction j arbitrary: n)
  case 0
  then show ?case by (subst exponent2.simps) simp
next
  case (Suc j)
  show ?case
  proof (cases "n < 2")
    case True
    then show ?thesis by (subst exponent2.simps) simp
  next
    case False
    from Suc.prems have "n div 2 < 2 ^ Suc j" by simp
    then have "exponent2 (n div 2) \<le> j" by (rule Suc.IH)
    with False show ?thesis by (subst exponent2.simps) simp
  qed
qed

lemma round_ties_even_bounds:
  assumes "0 < den"
  shows "2 * den * round_ties_even num den \<le> 2 * num + den"
    and "2 * num \<le> 2 * den * round_ties_even num den + den"
proof -
  define q where "q = num div den"
  define r where "r = num mod den"
  have num: "num = den * q + r" by (simp add: q_def r_def)
  have r: "r < den" using assms by (simp add: r_def)
  have rte: "round_ties_even num den =
     (if 2 * r < den then q else if den < 2 * r then q + 1 else if even q then q else q + 1)"
    by (simp add: round_ties_even_def Let_def q_def r_def)
  show "2 * den * round_ties_even num den \<le> 2 * num + den"
    unfolding rte using r num by (auto simp: algebra_simps)
  show "2 * num \<le> 2 * den * round_ties_even num den + den"
    unfolding rte using r num by (auto simp: algebra_simps)
qed

lemma tenths_bounds:
  fixes c m n P :: nat
  assumes P: "512 \<le> P"
    and m1: "2000 * m \<le> 2 * (c * P) + 1000"
    and m2: "2 * (c * P) \<le> 2000 * m + 1000"
    and n: "n = (20 * m + P) div (2 * P)"
  shows "100 * n \<le> c + 50" and "c \<le> 100 * n + 50"
proof -
  have P0: "0 < 2 * P" using P by simp
  have split: "2 * P * n + (20 * m + P) mod (2 * P) = 20 * m + P"
    unfolding n by (rule mult_div_mod_eq)
  have rem: "(20 * m + P) mod (2 * P) < 2 * P"
    using P0 by (rule mod_less_divisor)
  have lo: "2 * P * n \<le> 20 * m + P"
    using split by linarith
  have hi: "20 * m + P < 2 * P * n + 2 * P"
    using split rem by linarith
  show "100 * n \<le> c + 50"
  proof (rule ccontr)
    assume "\<not> 100 * n \<le> c + 50"
    then have "c + 51 \<le> 100 * n" by simp
    then have "(c + 51) * P \<le> 100 * n * P" by (rule mult_le_mono1)
    then have "c * P + 51 * P \<le> 100 * (P * n)" by (simp add: algebra_simps)
    with lo m1 P show False by (simp add: algebra_simps)
  qed
  show "c \<le> 100 * n + 50"
  proof (rule ccontr)
    assume "\<not> c \<le> 100 * n + 50"
    then have "100 * n + 51 \<le> c" by simp
    then have "(100 * n + 51) * P \<le> c * P" by (rule mult_le_mono1)
    then have "100 * (P * n) + 51 * P \<le> c * P" by (simp add: algebra_simps)
    with hi m2 P show False by (simp add: algebra_simps)
  qed
qed


lemma digit_char_value: "d < 10 \<Longrightarrow> of_char (digit_char d) = (48 + d :: nat)"
proof -
  assume "d < 10"
  then have "d \<in> {0, 1, 2, 3, 4, 5, 6, 7, 8, 9}" by auto
  then show ?thesis by (auto simp: digit_char_def)
qed

lemma decimal_value_snoc: "decimal_value (ds @ [c]) = 10 * decimal_value ds + (of_char c - 48)"
  by (simp add: decimal_value_def)

lemma decimal_value_show_nat: "decimal_value (show_nat n) = n"
proof (induction n rule: show_nat.induct)
  case (1 n)
  show ?case
  proof (cases "n < 10")
    case True
    then show ?thesis
      by (subst show_nat.simps) (simp add: decimal_value_def digit_char_value)
  next
    case False
    then have ih: "decimal_value (show_nat (n div 10)) = n div 10" by (rule "1.IH")
    have "n mod 10 < 10" by simp
    then have d: "of_char (digit_char (n mod 10)) = (48 + n mod 10 :: nat)"
      by (rule digit_char_value)
    from False show ?thesis
      by (subst show_nat.simps) (simp add: decimal_value_snoc ih d)
  qed
qed

lemma toFixed1_tenths_nearest:
  assumes "1000 \<le> c" and "c < 2 ^ 53"
  shows "100 * toFixed1_tenths (double_div_1000 c) \<le> c + 50"
    and "c \<le> 100 * toFixed1_tenths (double_div_1000 c) + 50"
proof -
  define e where "e = exponent2 (c div 1000)"
  define k where "k = 52 - e"
  define m where "m = round_ties_even (c * 2 ^ k) 1000"
  define n where "n = toFixed1_tenths (double_div_1000 c)"
  have "c div 1000 < 2 ^ Suc 43" using assms(2) by simp
  then have "e \<le> 43" unfolding e_def by (rule exponent2_le)
  then have k9: "9 \<le> k" by (simp add: k_def)
  have "(2::nat) ^ 9 \<le> 2 ^ k" using k9 by (rule power_increasing) simp
  then have P: "512 \<le> (2::nat) ^ k" by simp
  have m1: "2000 * m \<le> 2 * (c * 2 ^ k) + 1000"
    using round_ties_even_bounds(1) [of 1000 "c * 2 ^ k"] by (simp add: m_def)
  have m2: "2 * (c * 2 ^ k) \<le> 2000 * m + 1000"
    using round_ties_even_bounds(2) [of 1000 "c * 2 ^ k"] by (simp add: m_def)
  have n: "n = (20 * m + 2 ^ k) div (2 * 2 ^ k)"
    by (simp add: n_def toFixed1_tenths_def double_div_1000_def Let_def m_def k_def e_def)
  show "100 * toFixed1_tenths (double_div_1000 c) \<le> c + 50"
    using tenths_bounds(1) [OF P m1 m2 n] by (simp add: n_def)
  show "c \<le> 100 * toFixed1_tenths (double_div_1000 c) + 50"
    using tenths_bounds(2) [OF P m1 m2 n] by (simp add: n_def)
qed


lemma adopt_simps:
  "adopt cfg [] s = s"
  "adopt cfg (OnChange v # outs) s = adopt cfg outs (setValue cfg v s)"
  "adopt cfg (OnSelect tag # outs) s = adopt cfg outs s"
  "adopt cfg (PreventDefault # outs) s = adopt cfg outs s"
  "adopt cfg (ConsoleError # outs) s = adopt cfg outs s"
  "adopt cfg (FetchTagAutocomplete rid p # outs) s = adopt cfg outs s"
  by (simp_all add: adopt_def)













lemma settle_resolved:
  assumes "rid \<in> set (inflight s)"
  shows "step cfg s (Settle rid (Resolved response)) =
     ((setSuggestions (or_empty (data response)) (s\<lparr>inflight := removeAll rid (inflight s)\<rparr>))
        \<lparr>isLoading := False\<rparr>, [])"
  using assms by (simp add: step_def settle_def Let_def fetchTagAutocomplete_def or_empty_def)


lemma adopt_commit:
  "adopt cfg (snd (handleSelectTag cfg tag s)) (fst (handleSelectTag cfg tag s))
     = setValue cfg (name tag) (s\<lparr>isOpen := False\<rparr>)"
  by (simp add: handleSelectTag_fields adopt_simps)

lemma timer_after_commit:
  fixes cfg :: config and s :: controller and nm :: string
  assumes ok: "timer_ok cfg s"
  defines "s2 \<equiv> setValue cfg nm (s\<lparr>isOpen := False\<rparr>)"
  shows "debouncedValue s2 = debouncedValue s" and "issued s2 = issued s"
    and "tagTypeProp s2 = tagTypeProp s" and "inflight s2 = inflight s"
    and "\<not> isOpen s2" and "now s2 = now s"
    and "nm \<noteq> debouncedValue s \<Longrightarrow>
           \<exists>due. handler s2 = Some (due, nm) \<and> due \<le> now s + debounceDelay cfg"
    and "nm = debouncedValue s \<Longrightarrow>
           handler s2 = None \<or> (\<exists>due. handler s2 = Some (due, nm))"
proof -
  show "debouncedValue s2 = debouncedValue s" "issued s2 = issued s"
    "tagTypeProp s2 = tagTypeProp s" "inflight s2 = inflight s" "\<not> isOpen s2" "now s2 = now s"
    by (simp_all add: s2_def setValue_def)
  show "\<exists>due. handler s2 = Some (due, nm) \<and> due \<le> now s + debounceDelay cfg"
    if "nm \<noteq> debouncedValue s"
    using ok that by (auto simp: s2_def setValue_def timer_ok_def split: option.splits)
  show "handler s2 = None \<or> (\<exists>due. handler s2 = Some (due, nm))"
    if "nm = debouncedValue s"
    using ok that by (auto simp: s2_def setValue_def timer_ok_def split: option.splits)
qed

lemma advance_fires_lookup:
  assumes "handler s = Some (due, nm)" and "due \<le> now s + n"
    and "nm \<noteq> debouncedValue s" and "\<not> blank nm"
  shows "step cfg s (Advance n) =
     (s\<lparr>now := now s + n, handler := None, debouncedValue := nm, isLoading := True,
         error := None, inflight := inflight s @ [issued s], issued := Suc (issued s)\<rparr>,
      [FetchTagAutocomplete (issued s)
         \<lparr>prefix = nm, tagType = tagTypeProp s, limit = Some (limitOpt cfg)\<rparr>])"
  using assms by (simp add: step_def advance_def fetchSuggestions_def)

lemma advance_same_query:
  assumes "handler s = None \<or> (\<exists>due. handler s = Some (due, debouncedValue s))"
  shows "snd (step cfg s (Advance n)) = []" and "isOpen (fst (step cfg s (Advance n))) = isOpen s"
  using assms by (auto simp: step_def advance_def Let_def split: if_splits)

section \<open>The claims\<close>

text \<open>
  C9. For every response of the API that resolves, \<open>fetchTagAutocomplete\<close> returns a
  list, never null or an error: the list in the envelope's \<open>data\<close> field, and the empty
  list when that field is null.
\<close>

theorem fetchTagAutocomplete_never_null:
  "fetchTagAutocomplete (Resolved response) =
     Inr (case data response of None \<Rightarrow> [] | Some xs \<Rightarrow> xs)"
  by (simp add: fetchTagAutocomplete_def or_empty_def)

theorem fetchTagAutocomplete_never_null_witness:
  "fetchTagAutocomplete (Resolved \<lparr>success = False, data = None, apiError = None\<rparr>) = Inr []"
  using fetchTagAutocomplete_never_null [of "\<lparr>success = False, data = None, apiError = None\<rparr>"]
  by simp

text \<open>
  C5. When the settled (debounced) query is blank, \<open>fetchSuggestions\<close> empties the batch
  and calls nothing; so does the step in which a blank query settles; and no lookup that
  a step or the mount issues has a blank prefix.
\<close>

theorem blank_query_short_circuits:
  "(blank (debouncedValue s) \<longrightarrow>
      suggestions (fst (fetchSuggestions cfg s)) = [] \<and>
      snd (fetchSuggestions cfg s) = [] \<and>
      inflight (fst (fetchSuggestions cfg s)) = inflight s) \<and>
   (blank v \<and> handler t = Some (due, v) \<and> due \<le> now t + n \<and> v \<noteq> debouncedValue t \<longrightarrow>
      debouncedValue (fst (step cfg t (Advance n))) = v \<and>
      suggestions (fst (step cfg t (Advance n))) = [] \<and>
      snd (step cfg t (Advance n)) = [] \<and>
      inflight (fst (step cfg t (Advance n))) = inflight t) \<and>
   (FetchTagAutocomplete rid p \<in> set (snd (step cfg u ev)) \<longrightarrow> \<not> blank (prefix p)) \<and>
   (FetchTagAutocomplete rid p \<in> set (snd (mount cfg w tt)) \<longrightarrow> \<not> blank (prefix p))"
proof (intro conjI impI)
  assume "blank (debouncedValue s)"
  then show "suggestions (fst (fetchSuggestions cfg s)) = []"
    and "snd (fetchSuggestions cfg s) = []"
    and "inflight (fst (fetchSuggestions cfg s)) = inflight s"
    by (simp_all add: fetchSuggestions_def setSuggestions_fields)
next
  assume "blank v \<and> handler t = Some (due, v) \<and> due \<le> now t + n \<and> v \<noteq> debouncedValue t"
  then show "debouncedValue (fst (step cfg t (Advance n))) = v"
    and "suggestions (fst (step cfg t (Advance n))) = []"
    and "snd (step cfg t (Advance n)) = []"
    and "inflight (fst (step cfg t (Advance n))) = inflight t"
    by (simp_all add: step_def advance_def fetchSuggestions_def setSuggestions_fields)
next
  assume "FetchTagAutocomplete rid p \<in> set (snd (step cfg u ev))"
  then show "\<not> blank (prefix p)"
    by (cases ev)
      (auto simp: step_def setTagType_def advance_def settle_def handleKeyDown_def
        handleSelectTag_def fetchSuggestions_def Let_def
        split: if_splits option.splits sum.splits key.splits prod.splits)
next
  assume "FetchTagAutocomplete rid p \<in> set (snd (mount cfg w tt))"
  then show "\<not> blank (prefix p)"
    by (auto simp: mount_def fetchSuggestions_def split: if_splits)
qed

theorem blank_query_short_circuits_witness:
  "blank (debouncedValue (fst (mount example_config ''  '' None))) \<and>
   suggestions (fst (fetchSuggestions example_config
                       (fst (mount example_config ''  '' None)))) = [] \<and>
   snd (fetchSuggestions example_config (fst (mount example_config ''  '' None))) = [] \<and>
   blank '' '' \<and>
   handler (run example_config example_loading [SetValue '' '']) = Some (300, '' '') \<and>
   snd (step example_config (run example_config example_loading [SetValue '' ''])
          (Advance 300)) = [] \<and>
   suggestions (fst (step example_config (run example_config example_loading [SetValue '' ''])
                       (Advance 300))) = [] \<and>
   FetchTagAutocomplete 0 \<lparr>prefix = ''lo'', tagType = None, limit = Some 10\<rparr>
     \<in> set (snd (mount example_config ''lo'' None)) \<and>
   FetchTagAutocomplete 1 \<lparr>prefix = ''lol'', tagType = None, limit = Some 10\<rparr>
     \<in> set (snd (step example_config (run example_config example_loading [SetValue ''lol''])
                    (Advance 300))) \<and>
   \<not> blank ''lo'' \<and> \<not> blank ''lol''"
  using blank_query_short_circuits
    [of "fst (mount example_config ''  '' None)" example_config "'' ''"
        "run example_config example_loading [SetValue '' '']"
        300 300 0 "\<lparr>prefix = ''lo'', tagType = None, limit = Some 10\<rparr>"
        "run example_config example_loading [SetValue ''lol'']"
        "Advance 300" "''lo''" None]
  by (simp add: example_defs controller_defs blank_simps)

text \<open>
  C6. When a lookup in flight fails, the batch is emptied, an error message is recorded
  (the message of the \<open>Error\<close>, or a fixed text), loading ends, and nothing is called but
  the console: no callback of the caller, no new lookup, and no timeout is set. Time
  passing afterwards issues no lookup for the query that had settled.
\<close>

theorem lookup_failure_handling:
  assumes "rid \<in> set (inflight s)"
  shows "suggestions (fst (step cfg s (Settle rid (Rejected err)))) = [] \<and>
     error (fst (step cfg s (Settle rid (Rejected err)))) =
       Some (case err of JsError m \<Rightarrow> m | NonError \<Rightarrow> ''Failed to fetch suggestions'') \<and>
     isLoading (fst (step cfg s (Settle rid (Rejected err)))) = False \<and>
     snd (step cfg s (Settle rid (Rejected err))) = [ConsoleError] \<and>
     handler (fst (step cfg s (Settle rid (Rejected err)))) = handler s \<and>
     debouncedValue (fst (step cfg s (Settle rid (Rejected err)))) = debouncedValue s \<and>
     issued (fst (step cfg s (Settle rid (Rejected err)))) = issued s \<and>
     (\<forall>n rid' p. FetchTagAutocomplete rid' p
          \<in> set (snd (step cfg (fst (step cfg s (Settle rid (Rejected err)))) (Advance n)))
        \<longrightarrow> prefix p \<noteq> debouncedValue s)"
proof -
  let ?s' = "fst (step cfg s (Settle rid (Rejected err)))"
  have st: "step cfg s (Settle rid (Rejected err)) =
      ((setSuggestions []
          (s\<lparr>inflight := removeAll rid (inflight s),
             error := Some (case err of JsError m \<Rightarrow> m
                            | NonError \<Rightarrow> ''Failed to fetch suggestions'')\<rparr>))
         \<lparr>isLoading := False\<rparr>, [ConsoleError])"
    using assms by (simp add: step_def settle_def Let_def fetchTagAutocomplete_def)
  have f: "suggestions ?s' = []" "isLoading ?s' = False"
    "error ?s' = Some (case err of JsError m \<Rightarrow> m | NonError \<Rightarrow> ''Failed to fetch suggestions'')"
    "snd (step cfg s (Settle rid (Rejected err))) = [ConsoleError]"
    "handler ?s' = handler s" "debouncedValue ?s' = debouncedValue s" "issued ?s' = issued s"
    by (simp_all add: st setSuggestions_fields)
  have "prefix p \<noteq> debouncedValue s"
    if "FetchTagAutocomplete rid' p \<in> set (snd (step cfg ?s' (Advance n)))" for n rid' p
    using that f(5,6)
    by (auto simp: step_def advance_def Let_def fetchSuggestions_def
        split: option.splits if_splits)
  with f show ?thesis by blast
qed

text \<open>
  Mounted with \<open>lo\<close>, the text becomes \<open>lol\<close>, and the lookup for \<open>lo\<close> fails: the
  message is recorded and nothing is called but the console. The only lookup issued
  afterwards is the one the pending timeout brings, for the new text.
\<close>

theorem lookup_failure_handling_witness:
  "0 \<in> set (inflight (run example_config example_loading [SetValue ''lol''])) \<and>
   suggestions (fst (step example_config (run example_config example_loading [SetValue ''lol''])
                       (Settle 0 (Rejected (JsError ''Network Error''))))) = [] \<and>
   error (fst (step example_config (run example_config example_loading [SetValue ''lol''])
                 (Settle 0 (Rejected (JsError ''Network Error''))))) = Some ''Network Error'' \<and>
   snd (step example_config (run example_config example_loading [SetValue ''lol''])
          (Settle 0 (Rejected (JsError ''Network Error'')))) = [ConsoleError] \<and>
   FetchTagAutocomplete 1 \<lparr>prefix = ''lol'', tagType = None, limit = Some 10\<rparr>
     \<in> set (snd (step example_config
                    (fst (step example_config
                            (run example_config example_loading [SetValue ''lol''])
                            (Settle 0 (Rejected (JsError ''Network Error'')))))
                    (Advance 300))) \<and>
   ''lol'' \<noteq> debouncedValue (run example_config example_loading [SetValue ''lol''])"
proof -
  let ?s = "run example_config example_loading [SetValue ''lol'']"
  let ?p = "\<lparr>prefix = ''lol'', tagType = None, limit = Some 10\<rparr>"
  have s: "?s = example_loading\<lparr>value := ''lol'', handler := Some (300, ''lol'')\<rparr>"
    by (simp add: run_def step_def setValue_def example_loading_eq example_config_def
        component_config_def)
  have h: "0 \<in> set (inflight ?s)"
    by (simp only: s) (simp add: example_loading_eq)
  have f: "FetchTagAutocomplete 1 ?p
     \<in> set (snd (step example_config
                    (fst (step example_config ?s (Settle 0 (Rejected (JsError ''Network Error'')))))
                    (Advance 300)))"
    by (simp only: s)
      (simp add: example_loading_eq controller_defs blank_simps example_config_def
        component_config_def)
  note t = lookup_failure_handling [OF h, of example_config "JsError ''Network Error''"]
  from t have a: "suggestions (fst (step example_config ?s
        (Settle 0 (Rejected (JsError ''Network Error''))))) = []"
    and b: "error (fst (step example_config ?s
        (Settle 0 (Rejected (JsError ''Network Error''))))) = Some ''Network Error''"
    and c: "snd (step example_config ?s
        (Settle 0 (Rejected (JsError ''Network Error'')))) = [ConsoleError]"
    by simp_all
  from t have "\<forall>n rid' p. FetchTagAutocomplete rid' p
          \<in> set (snd (step example_config
                         (fst (step example_config ?s
                            (Settle 0 (Rejected (JsError ''Network Error'')))))
                         (Advance n)))
        \<longrightarrow> prefix p \<noteq> debouncedValue ?s"
    by blast
  with f have "prefix ?p \<noteq> debouncedValue ?s" by blast
  then have d: "''lol'' \<noteq> debouncedValue ?s" by simp
  from h a b c f d show ?thesis by blast
qed

text \<open>
  C8. \<open>formatUsageCount\<close> renders a missing count as \<open>0\<close>; a count below 1000 as
  the integer in decimal; and a count from 1000 (up to \<open>2^53\<close>, where every integer is
  a double) as a number of tenths \<open>n\<close>, printed with one decimal and the suffix \<open>k\<close>,
  that is nearest to the count divided by 1000: \<open>n / 10\<close> and \<open>count / 1000\<close> differ
  by at most \<open>0.05\<close>. So 1500 gives \<open>1.5k\<close>, 5000 gives \<open>5.0k\<close> and 42 gives \<open>42\<close>.
\<close>

theorem formatUsageCount_spec:
  "formatUsageCount None = ''0'' \<and>
   (\<forall>c. c < 1000 \<longrightarrow> formatUsageCount (Some c) = show_int c) \<and>
   (\<forall>c. 0 \<le> c \<and> c < 1000 \<longrightarrow> decimal_value (formatUsageCount (Some c)) = nat c) \<and>
   (\<forall>c. 1000 \<le> c \<and> c < 2 ^ 53 \<longrightarrow>
      (\<exists>n. formatUsageCount (Some c) = show_nat (n div 10) @ ''.'' @ [digit_char (n mod 10)] @ ''k'' \<and>
           \<bar>100 * int n - c\<bar> \<le> 50)) \<and>
   formatUsageCount (Some 1500) = ''1.5k'' \<and>
   formatUsageCount (Some 5000) = ''5.0k'' \<and>
   formatUsageCount (Some 42) = ''42''"
proof (intro conjI allI impI)
  show "formatUsageCount None = ''0''" by (simp add: formatUsageCount_def)
next
  fix c :: int assume "c < 1000"
  then show "formatUsageCount (Some c) = show_int c" by (simp add: formatUsageCount_def)
next
  fix c :: int assume "0 \<le> c \<and> c < 1000"
  then show "decimal_value (formatUsageCount (Some c)) = nat c"
    by (simp add: formatUsageCount_def show_int_def decimal_value_show_nat)
next
  fix c :: int assume c: "1000 \<le> c \<and> c < 2 ^ 53"
  define n where "n = toFixed1_tenths (double_div_1000 (nat c))"
  have "1000 \<le> nat c" "nat c < 2 ^ 53" using c by auto
  then have "100 * n \<le> nat c + 50" "nat c \<le> 100 * n + 50"
    unfolding n_def by (rule toFixed1_tenths_nearest)+
  then have b: "\<bar>100 * int n - c\<bar> \<le> 50" using c by linarith
  have "formatUsageCount (Some c) = show_nat (n div 10) @ ''.'' @ [digit_char (n mod 10)] @ ''k''"
    using c by (simp add: formatUsageCount_def toFixed1_def Let_def n_def)
  with b show "\<exists>n. formatUsageCount (Some c) =
        show_nat (n div 10) @ ''.'' @ [digit_char (n mod 10)] @ ''k'' \<and> \<bar>100 * int n - c\<bar> \<le> 50"
    by blast
next
  show "formatUsageCount (Some 1500) = ''1.5k''" by (simp add: format_defs)
next
  show "formatUsageCount (Some 5000) = ''5.0k''" by (simp add: format_defs)
next
  show "formatUsageCount (Some 42) = ''42''" by (simp add: format_defs)
qed

theorem formatUsageCount_spec_witness:
  "formatUsageCount (Some 999) = show_int 999 \<and>
   decimal_value (formatUsageCount (Some 999)) = 999 \<and>
   (\<exists>n. formatUsageCount (Some 1150) = show_nat (n div 10) @ ''.'' @ [digit_char (n mod 10)] @ ''k'' \<and>
        \<bar>100 * int n - 1150\<bar> \<le> 50) \<and>
   formatUsageCount (Some 1150) = ''1.1k'' \<and>
   formatUsageCount (Some 999950) = ''1000.0k''"
proof -
  note spec = formatUsageCount_spec
  from spec have a: "\<forall>c. c < 1000 \<longrightarrow> formatUsageCount (Some c) = show_int c" by blast
  from spec have b: "\<forall>c. 0 \<le> c \<and> c < 1000 \<longrightarrow> decimal_value (formatUsageCount (Some c)) = nat c"
    by blast
  from spec have c: "\<forall>c. 1000 \<le> c \<and> c < 2 ^ 53 \<longrightarrow>
      (\<exists>n. formatUsageCount (Some c) = show_nat (n div 10) @ ''.'' @ [digit_char (n mod 10)] @ ''k'' \<and>
           \<bar>100 * int n - c\<bar> \<le> 50)" by blast
  have 1: "formatUsageCount (Some 999) = show_int 999" using a by simp
  have 2: "decimal_value (formatUsageCount (Some 999)) = 999" using b [rule_format, of 999] by simp
  have 3: "\<exists>n. formatUsageCount (Some 1150) = show_nat (n div 10) @ ''.'' @ [digit_char (n mod 10)] @ ''k'' \<and>
        \<bar>100 * int n - 1150\<bar> \<le> 50" using c [rule_format, of 1150] by simp
  have 4: "formatUsageCount (Some 1150) = ''1.1k''" by (simp add: format_defs)
  have 5: "formatUsageCount (Some 999950) = ''1000.0k''" by (simp add: format_defs)
  from 1 2 3 4 5 show ?thesis by blast
qed

















text \<open>
  C1, as the code has it. The response of any lookup in flight becomes the batch when
  it arrives, whichever lookup was issued last; nothing is discarded. Of two lookups in
  flight, the one whose response arrives second decides the batch, also when it was
  issued first.
\<close>

theorem responses_apply_in_arrival_order:
  "(rid \<in> set (inflight s) \<longrightarrow>
      suggestions (fst (step cfg s (Settle rid (Resolved response)))) = or_empty (data response)) \<and>
   (a \<in> set (inflight t) \<and> b \<in> set (inflight t) \<and> a \<noteq> b \<longrightarrow>
      suggestions (run cfg t [Settle b (Resolved rb), Settle a (Resolved ra)])
        = or_empty (data ra))"
proof (intro conjI impI)
  assume "rid \<in> set (inflight s)"
  then show "suggestions (fst (step cfg s (Settle rid (Resolved response))))
      = or_empty (data response)"
    by (simp add: settle_resolved setSuggestions_fields)
next
  assume h: "a \<in> set (inflight t) \<and> b \<in> set (inflight t) \<and> a \<noteq> b"
  define t1 where "t1 = fst (step cfg t (Settle b (Resolved rb)))"
  have "inflight t1 = removeAll b (inflight t)"
    using h by (simp add: t1_def settle_resolved setSuggestions_fields)
  with h have "a \<in> set (inflight t1)" by simp
  then have "suggestions (fst (step cfg t1 (Settle a (Resolved ra)))) = or_empty (data ra)"
    by (simp add: settle_resolved setSuggestions_fields)
  then show "suggestions (run cfg t [Settle b (Resolved rb), Settle a (Resolved ra)])
      = or_empty (data ra)"
    by (simp add: run_def t1_def)
qed

text \<open>
  Mounted with \<open>lo\<close> (lookup 0), then \<open>lol\<close> settles (lookup 1): both are in flight.
\<close>

theorem responses_apply_in_arrival_order_witness:
  "inflight (run example_config example_loading [SetValue ''lol'', Advance 300]) = [0, 1] \<and>
   suggestions (fst (step example_config
       (run example_config example_loading [SetValue ''lol'', Advance 300])
       (Settle 0 (Resolved \<lparr>success = True, data = Some [tag_Lost_Ark], apiError = None\<rparr>))))
     = [tag_Lost_Ark] \<and>
   suggestions (run example_config
       (run example_config example_loading [SetValue ''lol'', Advance 300])
       [Settle 1 (Resolved \<lparr>success = True, data = Some [tag_LOL], apiError = None\<rparr>),
        Settle 0 (Resolved \<lparr>success = True, data = Some [tag_LOL, tag_Lost_Ark],
                              apiError = None\<rparr>)])
     = [tag_LOL, tag_Lost_Ark]"
proof -
  let ?t = "run example_config example_loading [SetValue ''lol'', Advance 300]"
  let ?r0 = "\<lparr>success = True, data = Some [tag_LOL, tag_Lost_Ark], apiError = None\<rparr>"
  let ?r1 = "\<lparr>success = True, data = Some [tag_LOL], apiError = None\<rparr>"
  let ?r2 = "\<lparr>success = True, data = Some [tag_Lost_Ark], apiError = None\<rparr>"
  have i: "inflight ?t = [0, 1]"
    by (simp add: run_def example_loading_eq controller_defs blank_simps example_config_def
        component_config_def)
  then have h: "0 \<in> set (inflight ?t)" "0 \<in> set (inflight ?t) \<and> 1 \<in> set (inflight ?t) \<and> (0::nat) \<noteq> 1"
    by simp_all
  from responses_apply_in_arrival_order [of 0 ?t example_config ?r2 0 ?t 1 ?r1 ?r0] h
  have "suggestions (fst (step example_config ?t (Settle 0 (Resolved ?r2)))) = or_empty (data ?r2)"
    "suggestions (run example_config ?t [Settle 1 (Resolved ?r1), Settle 0 (Resolved ?r0)])
       = or_empty (data ?r0)"
    by blast+
  with i show ?thesis by (simp add: or_empty_def)
qed

text \<open>
  C1 as stated fails. Lookup 0 is issued for \<open>lo\<close> at mount and lookup 1 for \<open>lol\<close>
  after the debounce interval. The response of lookup 1 arrives and is shown; then the
  response of lookup 0 arrives and replaces it, though lookup 1 was issued last.
\<close>

theorem stale_response_counterexample:
  "snd (mount example_config ''lo'' None)
     = [FetchTagAutocomplete 0 \<lparr>prefix = ''lo'', tagType = None, limit = Some 10\<rparr>] \<and>
   snd (step example_config (run example_config example_loading [SetValue ''lol''])
          (Advance 300))
     = [FetchTagAutocomplete 1 \<lparr>prefix = ''lol'', tagType = None, limit = Some 10\<rparr>] \<and>
   suggestions (run example_config example_loading
       [SetValue ''lol'', Advance 300, Settle 1 (ok_response [tag_LOL])]) = [tag_LOL] \<and>
   suggestions (run example_config example_loading
       [SetValue ''lol'', Advance 300, Settle 1 (ok_response [tag_LOL]),
        Settle 0 (ok_response [tag_LOL, tag_Lost_Ark])]) = [tag_LOL, tag_Lost_Ark] \<and>
   dropdown_rendered (run example_config example_loading
       [SetValue ''lol'', Advance 300, Settle 1 (ok_response [tag_LOL]),
        Settle 0 (ok_response [tag_LOL, tag_Lost_Ark])])"
proof -
  have m: "snd (mount example_config ''lo'' None)
     = [FetchTagAutocomplete 0 \<lparr>prefix = ''lo'', tagType = None, limit = Some 10\<rparr>]"
    by (simp add: example_defs controller_defs blank_simps)
  show ?thesis
    by (simp only: m)
      (simp add: run_def example_loading_eq controller_defs blank_simps example_config_def
        component_config_def ok_response_def dropdown_rendered_def)
qed


text \<open>
  C10, as the code has it. A controller run from its mount commits a suggestion, the
  caller stores the name that \<open>onChange\<close> passes, and at least the debounce interval
  passes with no other event. The commit has closed the dropdown. If the name is not
  blank and differs from the settled (debounced) query, exactly one lookup is then
  issued, with the name as prefix, and a non-empty response to it opens the dropdown
  again. If the name equals the settled query, no lookup is issued and the dropdown
  stays closed.
\<close>

theorem lookup_after_commit:
  "debounceDelay cfg \<le> n \<longrightarrow>
   \<not> isOpen (adopt cfg (snd (handleSelectTag cfg tag (run cfg (fst (mount cfg v tt)) evs)))
                (fst (handleSelectTag cfg tag (run cfg (fst (mount cfg v tt)) evs)))) \<and>
   (\<not> blank (name tag) \<and> name tag \<noteq> debouncedValue (run cfg (fst (mount cfg v tt)) evs) \<longrightarrow>
      snd (step cfg
             (adopt cfg (snd (handleSelectTag cfg tag (run cfg (fst (mount cfg v tt)) evs)))
                (fst (handleSelectTag cfg tag (run cfg (fst (mount cfg v tt)) evs))))
             (Advance n))
        = [FetchTagAutocomplete (issued (run cfg (fst (mount cfg v tt)) evs))
             \<lparr>prefix = name tag, tagType = tagTypeProp (run cfg (fst (mount cfg v tt)) evs),
              limit = Some (limitOpt cfg)\<rparr>] \<and>
      (or_empty (data response) \<noteq> [] \<longrightarrow>
         isOpen (fst (step cfg
           (fst (step cfg
              (adopt cfg (snd (handleSelectTag cfg tag (run cfg (fst (mount cfg v tt)) evs)))
                 (fst (handleSelectTag cfg tag (run cfg (fst (mount cfg v tt)) evs))))
              (Advance n)))
           (Settle (issued (run cfg (fst (mount cfg v tt)) evs)) (Resolved response)))))) \<and>
   (name tag = debouncedValue (run cfg (fst (mount cfg v tt)) evs) \<longrightarrow>
      snd (step cfg
             (adopt cfg (snd (handleSelectTag cfg tag (run cfg (fst (mount cfg v tt)) evs)))
                (fst (handleSelectTag cfg tag (run cfg (fst (mount cfg v tt)) evs))))
             (Advance n)) = [] \<and>
      \<not> isOpen (fst (step cfg
             (adopt cfg (snd (handleSelectTag cfg tag (run cfg (fst (mount cfg v tt)) evs)))
                (fst (handleSelectTag cfg tag (run cfg (fst (mount cfg v tt)) evs))))
             (Advance n))))"
proof
  assume n: "debounceDelay cfg \<le> n"
  define s where "s = run cfg (fst (mount cfg v tt)) evs"
  define s2 where "s2 = setValue cfg (name tag) (s\<lparr>isOpen := False\<rparr>)"
  have ok: "timer_ok cfg s" unfolding s_def by (rule timer_ok_run)
  note t = timer_after_commit [OF ok, of "name tag", folded s2_def]
  have closed: "\<not> isOpen s2" by (rule t(5))
  have fresh: "snd (step cfg s2 (Advance n))
        = [FetchTagAutocomplete (issued s)
             \<lparr>prefix = name tag, tagType = tagTypeProp s, limit = Some (limitOpt cfg)\<rparr>] \<and>
      (or_empty (data response) \<noteq> [] \<longrightarrow>
         isOpen (fst (step cfg (fst (step cfg s2 (Advance n)))
                        (Settle (issued s) (Resolved response)))))"
    if nb: "\<not> blank (name tag)" and ne: "name tag \<noteq> debouncedValue s"
  proof -
    from t(7) [OF ne] obtain due where h: "handler s2 = Some (due, name tag)"
      and d: "due \<le> now s + debounceDelay cfg" by blast
    from d n t(6) have d': "due \<le> now s2 + n" by simp
    from ne t(1) have ne': "name tag \<noteq> debouncedValue s2" by simp
    note st = advance_fires_lookup [OF h d' ne' nb, of cfg]
    have 1: "snd (step cfg s2 (Advance n))
        = [FetchTagAutocomplete (issued s)
             \<lparr>prefix = name tag, tagType = tagTypeProp s, limit = Some (limitOpt cfg)\<rparr>]"
      by (simp add: st t(2,3))
    have "issued s \<in> set (inflight (fst (step cfg s2 (Advance n))))"
      by (simp add: st t(2))
    then have 2: "or_empty (data response) \<noteq> [] \<longrightarrow>
         isOpen (fst (step cfg (fst (step cfg s2 (Advance n)))
                        (Settle (issued s) (Resolved response))))"
      by (simp add: settle_resolved setSuggestions_fields)
    from 1 2 show ?thesis by blast
  qed
  have same: "snd (step cfg s2 (Advance n)) = [] \<and> \<not> isOpen (fst (step cfg s2 (Advance n)))"
    if eq: "name tag = debouncedValue s"
  proof -
    from t(8) [OF eq] eq t(1)
    have "handler s2 = None \<or> (\<exists>due. handler s2 = Some (due, debouncedValue s2))" by simp
    from advance_same_query [OF this, of cfg n] closed show ?thesis by simp
  qed
  from closed fresh same
  show "\<not> isOpen (adopt cfg (snd (handleSelectTag cfg tag (run cfg (fst (mount cfg v tt)) evs)))
                (fst (handleSelectTag cfg tag (run cfg (fst (mount cfg v tt)) evs)))) \<and>
   (\<not> blank (name tag) \<and> name tag \<noteq> debouncedValue (run cfg (fst (mount cfg v tt)) evs) \<longrightarrow>
      snd (step cfg
             (adopt cfg (snd (handleSelectTag cfg tag (run cfg (fst (mount cfg v tt)) evs)))
                (fst (handleSelectTag cfg tag (run cfg (fst (mount cfg v tt)) evs))))
             (Advance n))
        = [FetchTagAutocomplete (issued (run cfg (fst (mount cfg v tt)) evs))
             \<lparr>prefix = name tag, tagType = tagTypeProp (run cfg (fst (mount cfg v tt)) evs),
              limit = Some (limitOpt cfg)\<rparr>] \<and>
      (or_empty (data response) \<noteq> [] \<longrightarrow>
         isOpen (fst (step cfg
           (fst (step cfg
              (adopt cfg (snd (handleSelectTag cfg tag (run cfg (fst (mount cfg v tt)) evs)))
                 (fst (handleSelectTag cfg tag (run cfg (fst (mount cfg v tt)) evs))))
              (Advance n)))
           (Settle (issued (run cfg (fst (mount cfg v tt)) evs)) (Resolved response)))))) \<and>
   (name tag = debouncedValue (run cfg (fst (mount cfg v tt)) evs) \<longrightarrow>
      snd (step cfg
             (adopt cfg (snd (handleSelectTag cfg tag (run cfg (fst (mount cfg v tt)) evs)))
                (fst (handleSelectTag cfg tag (run cfg (fst (mount cfg v tt)) evs))))
             (Advance n)) = [] \<and>
      \<not> isOpen (fst (step cfg
             (adopt cfg (snd (handleSelectTag cfg tag (run cfg (fst (mount cfg v tt)) evs)))
                (fst (handleSelectTag cfg tag (run cfg (fst (mount cfg v tt)) evs))))
             (Advance n))))"
    unfolding adopt_commit s_def [symmetric] s2_def [symmetric] by blast
qed


text \<open>
  The dropdown shows LOL and Lost Ark for the settled text \<open>lo\<close>; LOL is committed and
  300 ms pass: lookup 1 is issued for \<open>LOL\<close>, and its response opens the dropdown. In
  the second run the settled text is already \<open>LOL\<close>: nothing is issued.
\<close>

theorem lookup_after_commit_witness:
  "debounceDelay example_config \<le> 300 \<and>
   \<not> blank (name tag_LOL) \<and>
   name tag_LOL \<noteq> debouncedValue (run example_config (fst (mount example_config ''lo'' None))
                      [Settle 0 (ok_response [tag_LOL, tag_Lost_Ark])]) \<and>
   snd (step example_config
          (adopt example_config
             (snd (handleSelectTag example_config tag_LOL
                     (run example_config (fst (mount example_config ''lo'' None))
                        [Settle 0 (ok_response [tag_LOL, tag_Lost_Ark])])))
             (fst (handleSelectTag example_config tag_LOL
                     (run example_config (fst (mount example_config ''lo'' None))
                        [Settle 0 (ok_response [tag_LOL, tag_Lost_Ark])]))))
          (Advance 300))
     = [FetchTagAutocomplete 1 \<lparr>prefix = ''LOL'', tagType = None, limit = Some 10\<rparr>] \<and>
   isOpen (fst (step example_config
     (fst (step example_config
          (adopt example_config
             (snd (handleSelectTag example_config tag_LOL
                     (run example_config (fst (mount example_config ''lo'' None))
                        [Settle 0 (ok_response [tag_LOL, tag_Lost_Ark])])))
             (fst (handleSelectTag example_config tag_LOL
                     (run example_config (fst (mount example_config ''lo'' None))
                        [Settle 0 (ok_response [tag_LOL, tag_Lost_Ark])]))))
          (Advance 300)))
     (Settle 1 (Resolved \<lparr>success = True, data = Some [tag_LOL], apiError = None\<rparr>)))) \<and>
   name tag_LOL = debouncedValue (run example_config (fst (mount example_config [] None))
                      [SetValue ''LOL'', Advance 300, Settle 0 (ok_response [tag_LOL])]) \<and>
   snd (step example_config
          (adopt example_config
             (snd (handleSelectTag example_config tag_LOL
                     (run example_config (fst (mount example_config [] None))
                        [SetValue ''LOL'', Advance 300, Settle 0 (ok_response [tag_LOL])])))
             (fst (handleSelectTag example_config tag_LOL
                     (run example_config (fst (mount example_config [] None))
                        [SetValue ''LOL'', Advance 300, Settle 0 (ok_response [tag_LOL])]))))
          (Advance 300)) = []"
proof -
  let ?r = "\<lparr>success = True, data = Some [tag_LOL], apiError = None\<rparr>"
  let ?s = "run example_config (fst (mount example_config ''lo'' None))
              [Settle 0 (ok_response [tag_LOL, tag_Lost_Ark])]"
  let ?t = "run example_config (fst (mount example_config [] None))
              [SetValue ''LOL'', Advance 300, Settle 0 (ok_response [tag_LOL])]"
  have s: "?s = example_open"
    by (simp add: example_open_def example_loading_def)
  have t: "?t = \<lparr>value = ''LOL'', tagTypeProp = None, debouncedValue = ''LOL'',
         handler = None, now = 300, suggestions = [tag_LOL], isLoading = False,
         error = None, isOpen = True, selectedIndex = - 1, inflight = [], issued = 1\<rparr>"
    by (simp add: example_defs controller_defs blank_simps)
  have d: "debounceDelay example_config \<le> 300" "limitOpt example_config = 10"
    by (simp_all add: example_config_def component_config_def)
  have h1: "\<not> blank (name tag_LOL) \<and> name tag_LOL \<noteq> debouncedValue ?s"
    by (simp only: s) (simp add: example_open_eq tag_LOL_def blank_simps)
  have h2: "or_empty (data ?r) \<noteq> []" by (simp add: or_empty_def)
  have h3: "name tag_LOL = debouncedValue ?t"
    by (simp only: t) (simp add: tag_LOL_def)
  have v: "issued ?s = 1" "tagTypeProp ?s = None" "name tag_LOL = ''LOL''"
    by (simp_all only: s) (simp_all add: example_open_eq tag_LOL_def)
  from lookup_after_commit [of example_config 300 tag_LOL "''lo''" None
      "[Settle 0 (ok_response [tag_LOL, tag_Lost_Ark])]" ?r] d(1) h1 h2
  have a: "snd (step example_config
          (adopt example_config (snd (handleSelectTag example_config tag_LOL ?s))
             (fst (handleSelectTag example_config tag_LOL ?s)))
          (Advance 300))
     = [FetchTagAutocomplete (issued ?s)
          \<lparr>prefix = name tag_LOL, tagType = tagTypeProp ?s, limit = Some (limitOpt example_config)\<rparr>]"
    "isOpen (fst (step example_config
     (fst (step example_config
          (adopt example_config (snd (handleSelectTag example_config tag_LOL ?s))
             (fst (handleSelectTag example_config tag_LOL ?s)))
          (Advance 300)))
     (Settle (issued ?s) (Resolved ?r))))"
    by blast+
  from lookup_after_commit [of example_config 300 tag_LOL "[]" None
      "[SetValue ''LOL'', Advance 300, Settle 0 (ok_response [tag_LOL])]"] d(1) h3
  have b: "snd (step example_config
          (adopt example_config (snd (handleSelectTag example_config tag_LOL ?t))
             (fst (handleSelectTag example_config tag_LOL ?t)))
          (Advance 300)) = []"
    by blast
  from a b d h1 h3 show ?thesis
    by (simp only: v) simp
qed

text \<open>
  C10 as stated fails. The text \<open>LOL\<close> is typed and settles, the lookup returns the
  suggestion LOL, and Down, Enter commits it. \<open>onChange\<close> passes the text that is
  already displayed and settled: nothing is pending, 300 ms later no lookup has been
  issued, and the dropdown is closed.
\<close>

theorem no_lookup_after_commit_counterexample:
  "snd (step example_config
          (run example_config (fst (mount example_config [] None))
             [SetValue ''LOL'', Advance 300, Settle 0 (ok_response [tag_LOL]), KeyDown ArrowDown])
          (KeyDown Enter))
     = [PreventDefault, OnChange ''LOL'', OnSelect \<lparr>name = ''LOL'', usageCount = 1500\<rparr>] \<and>
   snd (step example_config
          (run example_config (fst (mount example_config [] None))
             [SetValue ''LOL'', Advance 300, Settle 0 (ok_response [tag_LOL]), KeyDown ArrowDown,
              KeyDown Enter, SetValue ''LOL''])
          (Advance 300)) = [] \<and>
   handler (run example_config (fst (mount example_config [] None))
             [SetValue ''LOL'', Advance 300, Settle 0 (ok_response [tag_LOL]), KeyDown ArrowDown,
              KeyDown Enter, SetValue ''LOL'', Advance 300]) = None \<and>
   inflight (run example_config (fst (mount example_config [] None))
             [SetValue ''LOL'', Advance 300, Settle 0 (ok_response [tag_LOL]), KeyDown ArrowDown,
              KeyDown Enter, SetValue ''LOL'', Advance 300]) = [] \<and>
   \<not> isOpen (run example_config (fst (mount example_config [] None))
             [SetValue ''LOL'', Advance 300, Settle 0 (ok_response [tag_LOL]), KeyDown ArrowDown,
              KeyDown Enter, SetValue ''LOL'', Advance 300])"
  by (simp add: example_defs controller_defs blank_simps)

end
